theory Spec2Isabelle
  imports Complex_Main
begin

section \<open>The event command generator of the Flamingo position task\<close>

text \<open>
  This theory embeds the class \<open>EventCommand\<close> of
  \<^verbatim>\<open>mdp/event_command.py\<close>: a batch of \<open>num_envs\<close> environments, each with an
  event flag and a timer, held in two tensors. A one-dimensional tensor is a list,
  the \<open>(num_envs, 2)\<close> tensor \<open>event_command\<close> is a list of rows, each row the pair
  (column 0, column 1).

  The tensors hold single-precision floats (\<open>torch.zeros\<close> with the default dtype, and
  \<open>dtype=torch.float32\<close>). A tensor entry is modelled as the real number it denotes, and
  every arithmetic operation on tensors as the exact operation followed by rounding to
  the nearest float32, ties to even (\<open>f32\<close>). The Python floats that the generator
  reads (\<open>step_dt\<close>, \<open>physics_dt\<close>, \<open>event_during_time\<close>) are double-precision numbers,
  also modelled as the reals they denote; a Python scalar that meets a float32 tensor in
  an operation is first converted to float32. Infinities and NaN are not represented:
  \<open>finite32\<close> marks the results that a float32 holds as a finite number.
\<close>

subsection \<open>Float32 arithmetic\<close>

text \<open>
  A positive real is brought to the form \<open>y * 2 ^ e\<close> with \<open>2 ^ 23 \<le> y < 2 ^ 24\<close>, or
  with \<open>e = -149\<close> and \<open>y < 2 ^ 23\<close> for a subnormal number, by halving or doubling;
  \<open>2 ^ e\<close> is then the spacing of the float32 numbers around it.
\<close>

function scale_down :: "real \<Rightarrow> int \<Rightarrow> real \<times> int" where
  "scale_down y e = (if 16777216 \<le> y then scale_down (y / 2) (e + 1) else (y, e))"
  by pat_completeness auto
termination
proof (relation "measure (\<lambda>(y, e). nat \<lfloor>y\<rfloor>)")
  show "wf (measure (\<lambda>(y, e). nat \<lfloor>y\<rfloor>))" by simp
next
  fix y :: real and e :: int
  assume a: "16777216 \<le> y"
  have "y / 2 + 1 \<le> y" using a by simp
  then have "\<lfloor>y / 2\<rfloor> + 1 \<le> \<lfloor>y\<rfloor>" by linarith
  moreover have "0 \<le> \<lfloor>y / 2\<rfloor>" using a by simp
  ultimately have "nat \<lfloor>y / 2\<rfloor> < nat \<lfloor>y\<rfloor>" by linarith
  then show "((y / 2, e + 1), (y, e)) \<in> measure (\<lambda>(y, e). nat \<lfloor>y\<rfloor>)"
    by (simp del: floor_divide_eq_div_numeral)
qed

function scale_up :: "real \<Rightarrow> int \<Rightarrow> real \<times> int" where
  "scale_up y e = (if y < 8388608 \<and> - 149 < e then scale_up (2 * y) (e - 1) else (y, e))"
  by pat_completeness auto
termination
  by (relation "measure (\<lambda>(y, e). nat (e + 149))") auto

declare scale_down.simps [simp del] scale_up.simps [simp del]

definition round_half_even :: "real \<Rightarrow> int" where
  "round_half_even y =
     (let f = \<lfloor>y\<rfloor>; d = y - of_int f
      in if d < 1/2 then f else if 1/2 < d then f + 1 else if even f then f else f + 1)"

definition pow2 :: "int \<Rightarrow> real" where
  "pow2 e = (if 0 \<le> e then 2 ^ nat e else 1 / 2 ^ nat (- e))"

text \<open>Rounding a real to float32.\<close>

definition f32 :: "real \<Rightarrow> real" where
  "f32 x =
     (if x = 0 then 0
      else (case scale_down \<bar>x\<bar> 0 of (y1, e1) \<Rightarrow>
              (case scale_up y1 e1 of (y, e) \<Rightarrow>
                 sgn x * of_int (round_half_even y) * pow2 e)))"

text \<open>
  The exponent is not bounded above here. A rounded value of magnitude \<open>2 ^ 128\<close> or
  more is one that the tensor holds as an infinity.
\<close>

definition finite32 :: "real \<Rightarrow> bool" where
  "finite32 x \<longleftrightarrow> \<bar>x\<bar> < 2 ^ 128"

subsection \<open>Errors and tensor indexing\<close>

datatype error = IndexError | ShapeError

text \<open>
  An index into a tensor of \<open>n\<close> entries is valid in \<open>[-n, n)\<close>; a negative index counts
  from the end. Any other index raises.
\<close>

definition wrap_index :: "nat \<Rightarrow> int \<Rightarrow> error + nat" where
  "wrap_index n i =
     (if 0 \<le> i \<and> i < int n then Inr (nat i)
      else if - int n \<le> i \<and> i < 0 then Inr (nat (i + int n))
      else Inl IndexError)"

fun wrap_indices :: "nat \<Rightarrow> int list \<Rightarrow> error + nat list" where
  "wrap_indices n [] = Inr []"
| "wrap_indices n (i # ids) =
     (case wrap_index n i of
        Inl err \<Rightarrow> Inl err
      | Inr j \<Rightarrow>
          (case wrap_indices n ids of
             Inl err \<Rightarrow> Inl err
           | Inr js \<Rightarrow> Inr (j # js)))"

text \<open>Reading \<open>xs[ids]\<close>: the entries at the given indices, in the order given.\<close>

definition index_get :: "'a list \<Rightarrow> int list \<Rightarrow> error + 'a list" where
  "index_get xs ids =
     (case wrap_indices (length xs) ids of
        Inl err \<Rightarrow> Inl err
      | Inr js \<Rightarrow> Inr (map (\<lambda>j. xs ! j) js))"

text \<open>
  Writing \<open>xs[js] = vs\<close> at indices already checked: one entry after the other, so the
  last write to an index stays.
\<close>

fun index_put :: "'a list \<Rightarrow> nat list \<Rightarrow> 'a list \<Rightarrow> 'a list" where
  "index_put xs (j # js) (v # vs) = index_put (xs[j := v]) js vs"
| "index_put xs _ _ = xs"

text \<open>Writing a whole column 0 of the two-column tensor, the other column kept.\<close>

definition set_col0 :: "(real \<times> real) list \<Rightarrow> real list \<Rightarrow> (real \<times> real) list" where
  "set_col0 rows c0 = map2 (\<lambda>v row. (v, snd row)) c0 rows"

subsection \<open>The environment and the generator\<close>

text \<open>
  What the generator reads from the environment that owns it: the step counter of each
  episode, the physics step, the environment step and the buffer that flags the
  environments reset in this step.
\<close>

record ManagerBasedEnv =
  episode_length_buf :: "int list"
  physics_dt :: real
  step_dt :: real
  reset_buf :: "bool list"

record EventCommand =
  time_elapsed :: "real list"
  event_command :: "(real \<times> real) list"
  event_during_time :: real

text \<open>\<open>__init__\<close>: both tensors are allocated with zeros, one entry per environment.\<close>

definition init :: "nat \<Rightarrow> real \<Rightarrow> EventCommand" where
  "init num_envs cfg_event_during_time =
     \<lparr>time_elapsed = replicate num_envs 0,
      event_command = replicate num_envs (0, 0),
      event_during_time = cfg_event_during_time\<rparr>"

text \<open>The property \<open>command\<close> returns the tensor itself.\<close>

definition command :: "EventCommand \<Rightarrow> (real \<times> real) list" where
  "command s = event_command s"

text \<open>
  A call either returns the new state or raises; a raise keeps the state as it is at
  that moment, since the tensors are mutated in place.
\<close>

type_synonym outcome = "(error \<times> EventCommand) + EventCommand"

definition state_of :: "outcome \<Rightarrow> EventCommand" where
  "state_of r = (case r of Inl (err, s) \<Rightarrow> s | Inr s \<Rightarrow> s)"

subsection \<open>\<open>_resample_command\<close>\<close>

text \<open>
  Line 82, \<open>episode_length_buf * physics_dt * 4\<close>: the integer tensor and the Python
  float are multiplied as float32, and so is the product with 4.
\<close>

definition current_time :: "ManagerBasedEnv \<Rightarrow> real list" where
  "current_time e =
     map (\<lambda>k. f32 (f32 (f32 (real_of_int k) * f32 (physics_dt e)) * 4))
       (episode_length_buf e)"

text \<open>
  The right-hand side \<open>torch.where(current_time[env_ids] >= 2.0, ones, zeros)\<close> is
  evaluated first, with its two reads at \<open>env_ids\<close>; then column 0 is written at
  \<open>env_ids\<close>, then the timer is.
\<close>

definition resample_command :: "int list \<Rightarrow> ManagerBasedEnv \<Rightarrow> EventCommand \<Rightarrow> outcome" where
  "resample_command env_ids e s =
     (case index_get (current_time e) env_ids of
        Inl err \<Rightarrow> Inl (err, s)
      | Inr ts \<Rightarrow>
          (case wrap_indices (length (event_command s)) env_ids of
             Inl err \<Rightarrow> Inl (err, s)
           | Inr js \<Rightarrow>
               (let vals = map (\<lambda>t. if 2 \<le> t then 1 else 0) ts;
                    s1 = s\<lparr>event_command :=
                             set_col0 (event_command s)
                               (index_put (map fst (event_command s)) js vals)\<rparr>
                in case wrap_indices (length (time_elapsed s1)) env_ids of
                     Inl err \<Rightarrow> Inl (err, s1)
                   | Inr ks \<Rightarrow>
                       Inr (s1\<lparr>time_elapsed :=
                                 index_put (time_elapsed s1) ks
                                   (replicate (length env_ids) 0)\<rparr>))))"

subsection \<open>\<open>_update_command\<close>\<close>

text \<open>
  Lines 105 to 109: the timer advances where the flag is 1.0 and is 0 elsewhere, the
  flag stays only where it was 1.0 and the new timer is within the duration, and the
  timer is copied into column 1. The sum and the comparison are float32 operations
  between a tensor and a Python float.
\<close>

definition accumulate_deactivate :: "real \<Rightarrow> EventCommand \<Rightarrow> EventCommand" where
  "accumulate_deactivate dt s =
     (let te = map2 (\<lambda>row t. if fst row = 1 then f32 (t + f32 dt) else 0)
                 (event_command s) (time_elapsed s);
          c0 = map2 (\<lambda>row t. if fst row = 1 \<and> t \<le> f32 (event_during_time s)
                               then 1 else 0)
                 (event_command s) te
      in s\<lparr>time_elapsed := te, event_command := map2 (\<lambda>a t. (a, t)) c0 te\<rparr>)"

text \<open>\<open>reset_buf.nonzero().flatten()\<close>: the positions that hold True, ascending.\<close>

definition reset_env_ids :: "ManagerBasedEnv \<Rightarrow> nat list" where
  "reset_env_ids e = filter (\<lambda>i. reset_buf e ! i) [0..<length (reset_buf e)]"

text \<open>Lines 113 and 114: the timer and the whole row of each reset environment become 0.\<close>

definition reset_override :: "nat list \<Rightarrow> EventCommand \<Rightarrow> EventCommand" where
  "reset_override ids s =
     s\<lparr>time_elapsed := index_put (time_elapsed s) ids (replicate (length ids) 0),
       event_command := index_put (event_command s) ids (replicate (length ids) (0, 0))\<rparr>"

text \<open>
  The element-wise operations need the flag column and the timer to have one shape;
  the tensors of a generator all have \<open>num_envs\<close> entries, and tensors of different
  lengths are taken to raise.
\<close>

definition update_command :: "ManagerBasedEnv \<Rightarrow> EventCommand \<Rightarrow> outcome" where
  "update_command e s =
     (if length (event_command s) \<noteq> length (time_elapsed s) then Inl (ShapeError, s)
      else
        (let s1 = accumulate_deactivate (step_dt e) s;
             ids = reset_env_ids e
         in if 0 < length ids
            then (if list_all (\<lambda>i. i < length (time_elapsed s1)) ids
                  then Inr (reset_override ids s1)
                  else Inl (IndexError, s1))
            else Inr s1))"

subsection \<open>Sequences of calls\<close>

datatype call = Resample "int list" ManagerBasedEnv | Update ManagerBasedEnv

fun do_call :: "call \<Rightarrow> EventCommand \<Rightarrow> outcome" where
  "do_call (Resample env_ids e) s = resample_command env_ids e s"
| "do_call (Update e) s = update_command e s"

text \<open>A raise ends the sequence, as the exception ends the driver loop.\<close>

fun exec :: "call list \<Rightarrow> EventCommand \<Rightarrow> outcome" where
  "exec [] s = Inr s"
| "exec (c # cs) s =
     (case do_call c s of
        Inl bad \<Rightarrow> Inl bad
      | Inr s' \<Rightarrow> exec cs s')"

text \<open>Every tensor of the generator and of the environment has \<open>num_envs\<close> entries.\<close>

definition wf_state :: "nat \<Rightarrow> EventCommand \<Rightarrow> bool" where
  "wf_state n s \<longleftrightarrow> length (time_elapsed s) = n \<and> length (event_command s) = n"

definition wf_env :: "nat \<Rightarrow> ManagerBasedEnv \<Rightarrow> bool" where
  "wf_env n e \<longleftrightarrow> length (episode_length_buf e) = n \<and> length (reset_buf e) = n"

text \<open>
  What one call of \<open>_update_command\<close> does to a single environment, given its row, its
  timer and its entry of \<open>reset_buf\<close>; lemma \<open>update_command_row\<close> shows that the batch
  operation computes this in every row.
\<close>

definition row_update ::
  "real \<Rightarrow> real \<Rightarrow> bool \<Rightarrow> real \<times> real \<Rightarrow> real \<Rightarrow> (real \<times> real) \<times> real" where
  "row_update dt dur reset row t =
     (if reset then ((0, 0), 0)
      else (let t' = (if fst row = 1 then f32 (t + f32 dt) else 0)
            in ((if fst row = 1 \<and> t' \<le> f32 dur then 1 else 0, t'), t')))"

text \<open>Column 0 holds a boolean written as a number.\<close>

definition flags_boolean :: "EventCommand \<Rightarrow> bool" where
  "flags_boolean s = list_all (\<lambda>row. fst row = 0 \<or> fst row = 1) (command s)"

text \<open>The row that a valid index addresses.\<close>

definition row_of :: "nat \<Rightarrow> int \<Rightarrow> nat" where
  "row_of n i = nat (if i < 0 then i + int n else i)"

text \<open>
  The invariant as the specification words it: an environment whose flag is 0.0 shows
  an elapsed time of 0.0.
\<close>

definition inactive_exposes_zero :: "EventCommand \<Rightarrow> bool" where
  "inactive_exposes_zero s = list_all (\<lambda>row. fst row = 0 \<longrightarrow> snd row = 0) (command s)"

subsection \<open>Example environments\<close>

text \<open>
  The Python floats of the examples are written as the doubles they are:
  \<open>5404319552844595 / 2 ^ 54\<close> is 0.3, \<open>5404319552844595 / 2 ^ 56\<close> is 0.075,
  \<open>3602879701896397 / 2 ^ 55\<close> is 0.1 and \<open>3602879701896397 / 2 ^ 57\<close> is 0.025.

  One environment, 0.3 s per step (four physics steps of 0.075 s): after seven steps the
  episode is 2.1 s old, past the 2.0 s threshold; \<open>env_early\<close> is the same environment
  at the start of an episode.
\<close>

definition env_late :: ManagerBasedEnv where
  "env_late = \<lparr>episode_length_buf = [7], physics_dt = 5404319552844595 / 2 ^ 56,
                step_dt = 5404319552844595 / 2 ^ 54, reset_buf = [False]\<rparr>"

definition env_early :: ManagerBasedEnv where
  "env_early = \<lparr>episode_length_buf = [0], physics_dt = 5404319552844595 / 2 ^ 56,
                 step_dt = 5404319552844595 / 2 ^ 54, reset_buf = [False]\<rparr>"

text \<open>Two environments, 0.1 s per step, environment 0 reset in this step.\<close>

definition env_reset0 :: ManagerBasedEnv where
  "env_reset0 = \<lparr>episode_length_buf = [30, 30], physics_dt = 3602879701896397 / 2 ^ 57,
                  step_dt = 3602879701896397 / 2 ^ 55, reset_buf = [True, False]\<rparr>"

definition state_two :: EventCommand where
  "state_two = \<lparr>time_elapsed = [1/2, 1/4], event_command = [(1, 1/2), (1, 1/4)],
                 event_during_time = 1\<rparr>"

text \<open>
  Three environments at the same step size; environment 2 starts as environment 1 of
  \<open>state_two\<close> does and is not reset, while its neighbours are in other states.
\<close>

definition env_other :: ManagerBasedEnv where
  "env_other = \<lparr>episode_length_buf = [5, 900, 30], physics_dt = 3602879701896397 / 2 ^ 57,
                 step_dt = 3602879701896397 / 2 ^ 55, reset_buf = [False, True, False]\<rparr>"

definition state_three :: EventCommand where
  "state_three = \<lparr>time_elapsed = [3/4, 0, 1/4],
                   event_command = [(1, 3/4), (0, 0), (1, 1/4)],
                   event_during_time = 1\<rparr>"

text \<open>
  One environment whose event is 0.75 s old, and a step of \<open>0.25 + 2 ^ -27\<close> s, a double
  that is not a float32.
\<close>

definition env_fine :: ManagerBasedEnv where
  "env_fine = \<lparr>episode_length_buf = [8], physics_dt = 1/16 + 1 / 2 ^ 29,
                step_dt = 1/4 + 1 / 2 ^ 27, reset_buf = [False]\<rparr>"

definition state_late :: EventCommand where
  "state_late = \<lparr>time_elapsed = [3/4], event_command = [(1, 3/4)], event_during_time = 1\<rparr>"

text \<open>
  One environment stepped at 60 Hz: \<open>4803839602528529 / 2 ^ 58\<close> is the double
  \<open>1 / 60\<close>, which is less than the fraction; 30 steps have been made.
\<close>

definition env_sixtieth :: ManagerBasedEnv where
  "env_sixtieth = \<lparr>episode_length_buf = [30], physics_dt = 4803839602528529 / 2 ^ 58,
                    step_dt = 4803839602528529 / 2 ^ 56, reset_buf = [False]\<rparr>"

lemmas f32_eval =
  f32_def scale_down.simps scale_up.simps round_half_even_def pow2_def finite32_def

lemmas model_defs =
  init_def command_def state_of_def resample_command_def update_command_def index_get_def
  wrap_index_def current_time_def set_col0_def accumulate_deactivate_def reset_env_ids_def
  reset_override_def wf_state_def wf_env_def

lemmas example_defs =
  env_late_def env_early_def env_reset0_def state_two_def env_other_def state_three_def
  env_fine_def state_late_def env_sixtieth_def

section \<open>Indexing lemmas\<close>

lemma length_index_put [simp]: "length (index_put xs js vs) = length xs"
  by (induction xs js vs rule: index_put.induct) simp_all

lemma nth_index_put_map:
  "\<forall>j\<in>set js. j < length xs \<Longrightarrow> k < length xs \<Longrightarrow>
     index_put xs js (map h js) ! k = (if k \<in> set js then h k else xs ! k)"
proof (induction js arbitrary: xs)
  case Nil
  then show ?case by simp
next
  case (Cons j js)
  then show ?case by (auto simp: nth_list_update)
qed

lemma set_index_put: "set (index_put xs js vs) \<subseteq> set xs \<union> set vs"
proof (induction xs js vs rule: index_put.induct)
  case (1 xs j js v vs)
  have "set (xs[j := v]) \<subseteq> insert v (set xs)" by (rule set_update_subset_insert)
  with 1 show ?case by auto
qed simp_all

lemma index_put_twice:
  assumes "\<forall>j\<in>set js. j < length xs"
  shows "index_put (index_put xs js (map h js)) js (map h js) = index_put xs js (map h js)"
proof (rule nth_equalityI)
  show "length (index_put (index_put xs js (map h js)) js (map h js))
          = length (index_put xs js (map h js))" by simp
next
  fix k assume "k < length (index_put (index_put xs js (map h js)) js (map h js))"
  then have k: "k < length xs" by simp
  have a: "\<forall>j\<in>set js. j < length (index_put xs js (map h js))" using assms by simp
  show "index_put (index_put xs js (map h js)) js (map h js) ! k
          = index_put xs js (map h js) ! k"
    using k assms a by (simp add: nth_index_put_map)
qed

lemma wrap_indices_valid:
  "\<forall>i\<in>set ids. - int n \<le> i \<and> i < int n \<Longrightarrow>
     wrap_indices n ids = Inr (map (\<lambda>i. nat (if i < 0 then i + int n else i)) ids)"
  by (induction ids) (auto simp: wrap_index_def)

lemma wrap_indices_invalid:
  "\<exists>i\<in>set ids. \<not> (- int n \<le> i \<and> i < int n) \<Longrightarrow> wrap_indices n ids = Inl IndexError"
  by (induction ids) (auto simp: wrap_index_def split: sum.splits)

lemma wrap_indices_Inr:
  "wrap_indices n ids = Inr js \<Longrightarrow>
     (\<forall>i\<in>set ids. - int n \<le> i \<and> i < int n) \<and>
     js = map (\<lambda>i. nat (if i < 0 then i + int n else i)) ids"
proof (cases "\<forall>i\<in>set ids. - int n \<le> i \<and> i < int n")
  case True
  assume "wrap_indices n ids = Inr js"
  with wrap_indices_valid [OF True] True show ?thesis by simp
next
  case False
  assume "wrap_indices n ids = Inr js"
  moreover from False have "wrap_indices n ids = Inl IndexError"
    by (intro wrap_indices_invalid) blast
  ultimately show ?thesis by simp
qed

lemma set_col0_zip: "set_col0 rows c0 = zip c0 (map snd rows)"
  by (simp add: set_col0_def zip_map2 case_prod_unfold)

section \<open>What the two operations compute\<close>

subsection \<open>\<open>_resample_command\<close> on tensors of one size\<close>

lemma resample_command_raises:
  assumes "wf_state n s" "length (episode_length_buf e) = n"
    and "\<exists>i\<in>set env_ids. \<not> (- int n \<le> i \<and> i < int n)"
  shows "resample_command env_ids e s = Inl (IndexError, s)"
  using assms wrap_indices_invalid [of env_ids n]
  by (simp add: resample_command_def index_get_def current_time_def)

lemma resample_command_returns:
  assumes "wf_state n s" "length (episode_length_buf e) = n"
    and "\<forall>i\<in>set env_ids. - int n \<le> i \<and> i < int n"
    and "js = map (\<lambda>i. nat (if i < 0 then i + int n else i)) env_ids"
  shows "resample_command env_ids e s =
           Inr (s\<lparr>event_command :=
                    set_col0 (event_command s)
                      (index_put (map fst (event_command s)) js
                         (map (\<lambda>j. if 2 \<le> current_time e ! j then 1 else 0) js)),
                  time_elapsed := index_put (time_elapsed s) js (map (\<lambda>j. 0) js)\<rparr>)"
proof -
  have w: "wrap_indices n env_ids = Inr js"
    using assms(3,4) wrap_indices_valid [of env_ids n] by simp
  have len: "length (current_time e) = n" "length (event_command s) = n"
    "length (time_elapsed s) = n"
    using assms(1,2) by (simp_all add: wf_state_def current_time_def)
  have r: "replicate (length env_ids) (0::real) = map (\<lambda>j. 0) js"
    using assms(4) by (simp add: map_replicate_const)
  show ?thesis
    by (simp add: resample_command_def index_get_def len w r Let_def comp_def set_col0_def)
qed

subsection \<open>\<open>_update_command\<close> on tensors of one size\<close>

lemma accumulate_deactivate_row:
  assumes "length (time_elapsed s) = length (event_command s)" "k < length (event_command s)"
  shows "time_elapsed (accumulate_deactivate dt s) ! k
           = (if fst (event_command s ! k) = 1 then f32 (time_elapsed s ! k + f32 dt) else 0)"
    and "event_command (accumulate_deactivate dt s) ! k
           = (if fst (event_command s ! k) = 1
                 \<and> time_elapsed (accumulate_deactivate dt s) ! k \<le> f32 (event_during_time s)
              then 1 else 0,
              time_elapsed (accumulate_deactivate dt s) ! k)"
  using assms by (simp_all add: accumulate_deactivate_def Let_def)

lemma accumulate_deactivate_length:
  assumes "length (time_elapsed s) = length (event_command s)"
  shows "length (time_elapsed (accumulate_deactivate dt s)) = length (event_command s)"
    and "length (event_command (accumulate_deactivate dt s)) = length (event_command s)"
  using assms by (simp_all add: accumulate_deactivate_def Let_def)

lemma accumulate_deactivate_duration [simp]:
  "event_during_time (accumulate_deactivate dt s) = event_during_time s"
  by (simp add: accumulate_deactivate_def Let_def)

lemma reset_override_duration [simp]:
  "event_during_time (reset_override ids s) = event_during_time s"
  by (simp add: reset_override_def)

lemma reset_override_length [simp]:
  "length (time_elapsed (reset_override ids s)) = length (time_elapsed s)"
  "length (event_command (reset_override ids s)) = length (event_command s)"
  by (simp_all add: reset_override_def)

lemma reset_override_row:
  assumes "\<forall>j\<in>set ids. j < length (time_elapsed s)"
    "length (time_elapsed s) = length (event_command s)" "k < length (event_command s)"
  shows "time_elapsed (reset_override ids s) ! k
           = (if k \<in> set ids then 0 else time_elapsed s ! k)"
    and "event_command (reset_override ids s) ! k
           = (if k \<in> set ids then (0, 0) else event_command s ! k)"
proof -
  have r: "replicate (length ids) (0::real) = map (\<lambda>j. 0) ids"
    "replicate (length ids) (0::real, 0::real) = map (\<lambda>j. (0, 0)) ids"
    by (simp_all add: map_replicate_const)
  show "time_elapsed (reset_override ids s) ! k
           = (if k \<in> set ids then 0 else time_elapsed s ! k)"
    using assms by (simp add: reset_override_def r nth_index_put_map)
  show "event_command (reset_override ids s) ! k
           = (if k \<in> set ids then (0, 0) else event_command s ! k)"
    using assms by (simp add: reset_override_def r nth_index_put_map)
qed

lemma set_reset_env_ids:
  "set (reset_env_ids e) = {i. i < length (reset_buf e) \<and> reset_buf e ! i}"
  by (auto simp: reset_env_ids_def)

lemma update_command_returns:
  assumes "wf_state n s" "length (reset_buf e) = n"
  shows "update_command e s =
           Inr (reset_override (reset_env_ids e) (accumulate_deactivate (step_dt e) s))"
proof -
  have l: "length (time_elapsed (accumulate_deactivate (step_dt e) s)) = n"
    using assms(1) by (simp add: accumulate_deactivate_def wf_state_def Let_def)
  have b: "list_all (\<lambda>i. i < n) (reset_env_ids e)"
    using assms(2) by (simp add: reset_env_ids_def list_all_iff)
  have e: "reset_env_ids e = [] \<Longrightarrow>
             reset_override (reset_env_ids e) (accumulate_deactivate (step_dt e) s)
               = accumulate_deactivate (step_dt e) s"
    by (simp add: reset_override_def)
  show ?thesis
    using assms(1) l b e by (auto simp: update_command_def wf_state_def Let_def)
qed

lemma update_command_row:
  assumes "wf_state n s" "length (reset_buf e) = n" "i < n"
  shows "\<exists>t. update_command e s = Inr t \<and> wf_state n t
            \<and> event_during_time t = event_during_time s
            \<and> (event_command t ! i, time_elapsed t ! i)
                = row_update (step_dt e) (event_during_time s) (reset_buf e ! i)
                    (event_command s ! i) (time_elapsed s ! i)"
proof -
  let ?s1 = "accumulate_deactivate (step_dt e) s"
  let ?t = "reset_override (reset_env_ids e) ?s1"
  have len: "length (time_elapsed s) = length (event_command s)" "i < length (event_command s)"
    using assms by (simp_all add: wf_state_def)
  have len1: "length (time_elapsed ?s1) = n" "length (event_command ?s1) = n"
    using assms(1) accumulate_deactivate_length [of s "step_dt e"] by (simp_all add: wf_state_def)
  have ids: "\<forall>j\<in>set (reset_env_ids e). j < length (time_elapsed ?s1)"
    using assms(2) len1 by (simp add: set_reset_env_ids)
  have mem: "i \<in> set (reset_env_ids e) \<longleftrightarrow> reset_buf e ! i"
    using assms(2,3) by (simp add: set_reset_env_ids)
  have "update_command e s = Inr ?t"
    using assms(1,2) by (rule update_command_returns)
  moreover have "wf_state n ?t" using len1 by (simp add: wf_state_def)
  moreover have "event_during_time ?t = event_during_time s" by simp
  moreover have "(event_command ?t ! i, time_elapsed ?t ! i)
                = row_update (step_dt e) (event_during_time s) (reset_buf e ! i)
                    (event_command s ! i) (time_elapsed s ! i)"
    using reset_override_row [OF ids, of i] len1 assms(3) mem
      accumulate_deactivate_row [OF len, of "step_dt e"]
    by (simp add: row_update_def Let_def)
  ultimately show ?thesis by blast
qed

section \<open>The claims\<close>

text \<open>
  C2 (scenario A). One environment, \<open>event_during_time = 1.0\<close>, a resample at episode
  time 2.1 s and four updates of 0.3 s. The float32 timer goes through 0.3, 0.6 and 0.9
  (\<open>15099495 / 2 ^ 24\<close>) and reaches 1.2 (\<open>5033165 / 2 ^ 22\<close>) in the fourth update,
  where the flag drops to 0.0, as the scenario says; but the timer is not zeroed in that
  call: the generator ends with timer 1.2 and row \<open>(0.0, 1.2)\<close>, where the scenario
  expects \<open>(0.0, 0.0)\<close>. Only a fifth update writes the zero.
\<close>

theorem scenario_A_after_fourth_update:
  "exec [Resample [0] env_late, Update env_late, Update env_late, Update env_late]
     (init 1 1)
     = Inr \<lparr>time_elapsed = [15099495 / 16777216],
            event_command = [(1, 15099495 / 16777216)], event_during_time = 1\<rparr>
   \<and> exec [Resample [0] env_late, Update env_late, Update env_late, Update env_late,
           Update env_late] (init 1 1)
     = Inr \<lparr>time_elapsed = [5033165 / 4194304],
            event_command = [(0, 5033165 / 4194304)], event_during_time = 1\<rparr>
   \<and> exec [Resample [0] env_late, Update env_late, Update env_late, Update env_late,
           Update env_late, Update env_late] (init 1 1)
     = Inr \<lparr>time_elapsed = [0], event_command = [(0, 0)], event_during_time = 1\<rparr>"
  by (simp add: model_defs example_defs f32_eval)

text \<open>
  C4 (update step rule), as the code has it. Lines 105 to 109 of \<open>_update_command\<close>, on
  a generator and an environment whose tensors all have \<open>n\<close> entries, where the sum
  stays a finite float32: the internal timer of an environment whose flag is 1.0 becomes
  the float32 sum of the timer and \<open>step_dt\<close>, the timer of any other environment becomes
  0; column 1 of the row becomes a copy of the new timer, whatever it showed before; the
  flag is 1.0 afterwards exactly when it was 1.0 before and the new timer is at most
  \<open>event_during_time\<close> as a float32, and is 0.0 otherwise. The call returns, and for an
  environment that \<open>reset_buf\<close> does not flag this is the state it returns.
\<close>

theorem update_step_rule:
  assumes "wf_state n s" and "wf_env n e" and "i < n"
    and "finite32 (f32 (step_dt e))"
    and "finite32 (f32 (time_elapsed s ! i + f32 (step_dt e)))"
  shows "time_elapsed (accumulate_deactivate (step_dt e) s) ! i
           = (if fst (command s ! i) = 1 then f32 (time_elapsed s ! i + f32 (step_dt e))
              else 0)
       \<and> snd (command (accumulate_deactivate (step_dt e) s) ! i)
           = time_elapsed (accumulate_deactivate (step_dt e) s) ! i
       \<and> (fst (command (accumulate_deactivate (step_dt e) s) ! i) = 1
            \<longleftrightarrow> fst (command s ! i) = 1
                \<and> time_elapsed (accumulate_deactivate (step_dt e) s) ! i
                     \<le> f32 (event_during_time s))
       \<and> (fst (command (accumulate_deactivate (step_dt e) s) ! i) \<noteq> 1
            \<longrightarrow> fst (command (accumulate_deactivate (step_dt e) s) ! i) = 0)
       \<and> (\<exists>s'. update_command e s = Inr s'
              \<and> (\<not> reset_buf e ! i
                   \<longrightarrow> time_elapsed s' ! i
                         = time_elapsed (accumulate_deactivate (step_dt e) s) ! i
                       \<and> command s' ! i
                         = command (accumulate_deactivate (step_dt e) s) ! i))"
proof -
  let ?s1 = "accumulate_deactivate (step_dt e) s"
  have len: "length (time_elapsed s) = length (event_command s)" "i < length (event_command s)"
    using assms by (simp_all add: wf_state_def)
  note row = accumulate_deactivate_row [OF len, of "step_dt e"]
  have a: "time_elapsed ?s1 ! i
           = (if fst (command s ! i) = 1 then f32 (time_elapsed s ! i + f32 (step_dt e))
              else 0)"
    using row(1) by (simp add: command_def)
  have a': "snd (command ?s1 ! i) = time_elapsed ?s1 ! i"
    using row(2) by (simp add: command_def)
  have b: "fst (command ?s1 ! i) = 1
            \<longleftrightarrow> fst (command s ! i) = 1
                \<and> time_elapsed ?s1 ! i \<le> f32 (event_during_time s)"
    using row(2) by (simp add: command_def)
  have c: "fst (command ?s1 ! i) \<noteq> 1 \<longrightarrow> fst (command ?s1 ! i) = 0"
    using row(2) by (simp add: command_def)
  have len1: "length (time_elapsed ?s1) = n" "length (event_command ?s1) = n"
    using assms(1) accumulate_deactivate_length [of s "step_dt e"] by (simp_all add: wf_state_def)
  have r: "length (reset_buf e) = n" using assms(2) by (simp add: wf_env_def)
  have ids: "\<forall>j\<in>set (reset_env_ids e). j < length (time_elapsed ?s1)"
    using r len1 by (simp add: set_reset_env_ids)
  have mem: "i \<in> set (reset_env_ids e) \<longleftrightarrow> reset_buf e ! i"
    using r assms(3) by (simp add: set_reset_env_ids)
  have d: "\<exists>s'. update_command e s = Inr s'
              \<and> (\<not> reset_buf e ! i
                   \<longrightarrow> time_elapsed s' ! i = time_elapsed ?s1 ! i
                       \<and> command s' ! i = command ?s1 ! i)"
    using update_command_returns [OF assms(1) r] reset_override_row [OF ids, of i] len1
      assms(3) mem by (simp add: command_def)
  from a a' b c d show ?thesis by blast
qed

theorem update_step_rule_witness:
  "wf_state 2 state_two \<and> wf_env 2 env_reset0 \<and> (1::nat) < 2
   \<and> finite32 (f32 (step_dt env_reset0))
   \<and> finite32 (f32 (time_elapsed state_two ! 1 + f32 (step_dt env_reset0)))
   \<and> f32 (step_dt env_reset0) = 13421773 / 134217728
   \<and> time_elapsed (accumulate_deactivate (step_dt env_reset0) state_two) ! 1
       = 11744051 / 33554432
   \<and> command (accumulate_deactivate (step_dt env_reset0) state_two) ! 1
       = (1, 11744051 / 33554432)
   \<and> update_command env_reset0 state_two
        = Inr \<lparr>time_elapsed = [0, 11744051 / 33554432],
               event_command = [(0, 0), (1, 11744051 / 33554432)],
               event_during_time = 1\<rparr>"
proof -
  have h: "wf_state 2 state_two" "wf_env 2 env_reset0" "(1::nat) < 2"
    "finite32 (f32 (step_dt env_reset0))"
    "finite32 (f32 (time_elapsed state_two ! 1 + f32 (step_dt env_reset0)))"
    by (simp_all add: model_defs example_defs f32_eval)
  show ?thesis
    using h update_step_rule [OF h]
    by (simp add: model_defs example_defs f32_eval)
qed

text \<open>
  C4 as stated fails in two ways. With timer 0.75, \<open>event_during_time = 1.0\<close> and a
  step of \<open>0.25 + 2 ^ -27\<close> s the timer becomes exactly 1.0: it has not gained the step,
  and the environment stays active although timer plus step exceeds the duration. And
  an active environment that has just been resampled shows 0.3 s before the update and
  0.3 s after it: the exposed elapsed time is overwritten with the restarted timer, it
  does not gain the step.
\<close>

theorem update_gain_counterexample:
  "fst (command state_late ! 0) = 1
   \<and> update_command env_fine state_late
       = Inr \<lparr>time_elapsed = [1], event_command = [(1, 1)], event_during_time = 1\<rparr>
   \<and> time_elapsed state_late ! 0 + step_dt env_fine \<noteq> 1
   \<and> \<not> time_elapsed state_late ! 0 + step_dt env_fine \<le> event_during_time state_late
   \<and> exec [Resample [0] env_late, Update env_late, Resample [0] env_late] (init 1 1)
       = Inr \<lparr>time_elapsed = [0], event_command = [(1, 5033165 / 16777216)],
              event_during_time = 1\<rparr>
   \<and> exec [Resample [0] env_late, Update env_late, Resample [0] env_late, Update env_late]
         (init 1 1)
       = Inr \<lparr>time_elapsed = [5033165 / 16777216],
              event_command = [(1, 5033165 / 16777216)], event_during_time = 1\<rparr>"
  by (simp add: model_defs example_defs f32_eval)

text \<open>
  C5 (reset override). The call returns; an environment flagged in \<open>reset_buf\<close> ends
  with row \<open>(0.0, 0.0)\<close> and timer 0 whatever its state was, and an environment not
  flagged ends with what lines 105 to 109 computed for it.
\<close>

theorem reset_override_wins:
  assumes "wf_state n s" and "wf_env n e" and "i < n"
  shows "\<exists>s'. update_command e s = Inr s'
           \<and> (reset_buf e ! i \<longrightarrow> command s' ! i = (0, 0) \<and> time_elapsed s' ! i = 0)
           \<and> (\<not> reset_buf e ! i \<longrightarrow>
                 command s' ! i = command (accumulate_deactivate (step_dt e) s) ! i
               \<and> time_elapsed s' ! i = time_elapsed (accumulate_deactivate (step_dt e) s) ! i)"
proof -
  let ?s1 = "accumulate_deactivate (step_dt e) s"
  have r: "length (reset_buf e) = n" using assms(2) by (simp add: wf_env_def)
  have len1: "length (time_elapsed ?s1) = n" "length (event_command ?s1) = n"
    using assms(1) accumulate_deactivate_length [of s "step_dt e"] by (simp_all add: wf_state_def)
  have ids: "\<forall>j\<in>set (reset_env_ids e). j < length (time_elapsed ?s1)"
    using r len1 by (simp add: set_reset_env_ids)
  have mem: "i \<in> set (reset_env_ids e) \<longleftrightarrow> reset_buf e ! i"
    using r assms(3) by (simp add: set_reset_env_ids)
  show ?thesis
    using update_command_returns [OF assms(1) r] reset_override_row [OF ids, of i] len1
      assms(3) mem by (simp add: command_def)
qed

theorem reset_override_wins_witness:
  "wf_state 2 state_two \<and> wf_env 2 env_reset0 \<and> (0::nat) < 2 \<and> reset_buf env_reset0 ! 0
   \<and> \<not> reset_buf env_reset0 ! 1
   \<and> (\<exists>s'. update_command env_reset0 state_two = Inr s'
         \<and> command s' ! 0 = (0, 0) \<and> time_elapsed s' ! 0 = 0
         \<and> command s' ! 1 = (1, 11744051 / 33554432)
         \<and> time_elapsed s' ! 1 = 11744051 / 33554432)"
proof -
  have h: "wf_state 2 state_two" "wf_env 2 env_reset0"
    by (simp_all add: model_defs example_defs)
  have r: "reset_buf env_reset0 ! 0" "\<not> reset_buf env_reset0 ! 1"
    by (simp_all add: example_defs)
  have a: "command (accumulate_deactivate (step_dt env_reset0) state_two) ! 1
             = (1, 11744051 / 33554432)"
    "time_elapsed (accumulate_deactivate (step_dt env_reset0) state_two) ! 1
       = 11744051 / 33554432"
    by (simp_all add: model_defs example_defs f32_eval)
  from reset_override_wins [OF h, of 0] reset_override_wins [OF h, of 1] r a h
  show ?thesis by auto
qed



lemma flags_set_col0:
  assumes "\<forall>v\<in>set c0. v = 0 \<or> v = 1"
  shows "list_all (\<lambda>row. fst row = 0 \<or> fst row = 1) (set_col0 rows c0)"
  using assms by (auto simp: set_col0_zip list_all_iff dest: set_zip_leftD)

lemma length_set_col0:
  "length c0 = length rows \<Longrightarrow> length (set_col0 rows c0) = length rows"
  by (simp add: set_col0_zip)

lemma index_put_flags:
  assumes "\<forall>v\<in>set xs. v = (0::real) \<or> v = 1" "\<forall>v\<in>set vs. v = 0 \<or> v = 1"
  shows "\<forall>v\<in>set (index_put xs js vs). v = 0 \<or> v = 1"
  using assms set_index_put [of xs js vs] by blast

lemma resample_keeps_flags:
  assumes "wf_state n s" "flags_boolean s"
  shows "wf_state n (state_of (resample_command env_ids e s))
       \<and> flags_boolean (state_of (resample_command env_ids e s))"
proof -
  have old: "\<forall>v\<in>set (map fst (event_command s)). v = 0 \<or> v = 1"
    using assms(2) by (auto simp: flags_boolean_def command_def list_all_iff)
  have new: "\<forall>v\<in>set (map (\<lambda>t::real. if 2 \<le> t then 1 else 0 :: real) ts). v = 0 \<or> v = 1" for ts
    by auto
  have f: "list_all (\<lambda>row. fst row = 0 \<or> fst row = 1)
             (set_col0 (event_command s)
                (index_put (map fst (event_command s)) js
                   (map (\<lambda>t::real. if 2 \<le> t then 1 else 0) ts)))" for js ts
    by (rule flags_set_col0, rule index_put_flags [OF old new])
  have l: "length (set_col0 (event_command s)
                (index_put (map fst (event_command s)) js vs)) = n" for js vs
    using assms(1) by (simp add: length_set_col0 wf_state_def)
  show ?thesis
    using assms f l
    by (auto simp: resample_command_def state_of_def flags_boolean_def command_def
        wf_state_def Let_def split: sum.splits)
qed

lemma accumulate_deactivate_flags:
  "flags_boolean (accumulate_deactivate dt s)"
  by (auto simp: accumulate_deactivate_def flags_boolean_def command_def Let_def list_all_iff
      dest!: set_zip_leftD)

lemma reset_override_flags:
  assumes "flags_boolean s"
  shows "flags_boolean (reset_override ids s)"
proof -
  have "set (index_put (event_command s) ids (replicate (length ids) (0, 0)))
          \<subseteq> set (event_command s) \<union> {(0, 0)}"
    using set_index_put [of "event_command s" ids "replicate (length ids) (0, 0)"] by auto
  then show ?thesis
    using assms by (auto simp: flags_boolean_def command_def reset_override_def list_all_iff)
qed

lemma update_keeps_flags:
  assumes "wf_state n s" "flags_boolean s"
  shows "wf_state n (state_of (update_command e s))
       \<and> flags_boolean (state_of (update_command e s))"
proof -
  let ?s1 = "accumulate_deactivate (step_dt e) s"
  have len1: "wf_state n ?s1"
    using assms(1) accumulate_deactivate_length [of s "step_dt e"] by (simp add: wf_state_def)
  then have len2: "wf_state n (reset_override ids ?s1)" for ids by (simp add: wf_state_def)
  show ?thesis
    using assms len1 len2 accumulate_deactivate_flags [of "step_dt e" s]
      reset_override_flags [OF accumulate_deactivate_flags, of _ "step_dt e" s]
    by (simp add: update_command_def state_of_def Let_def)
qed

lemma exec_keeps_flags:
  "wf_state n s \<Longrightarrow> flags_boolean s \<Longrightarrow>
     wf_state n (state_of (exec calls s)) \<and> flags_boolean (state_of (exec calls s))"
proof (induction calls arbitrary: s)
  case Nil
  then show ?case by (simp add: state_of_def)
next
  case (Cons c calls)
  have step: "wf_state n (state_of (do_call c s)) \<and> flags_boolean (state_of (do_call c s))"
    using Cons.prems resample_keeps_flags update_keeps_flags by (cases c) simp_all
  show ?case
  proof (cases "do_call c s")
    case (Inl bad)
    then have "state_of (exec (c # calls) s) = state_of (do_call c s)" by simp
    with step show ?thesis by simp
  next
    case (Inr s')
    then have s': "wf_state n s'" "flags_boolean s'"
      using step by (simp_all add: state_of_def)
    from Inr have "exec (c # calls) s = exec calls s'" by simp
    with Cons.IH [OF s'] show ?thesis by simp
  qed
qed

text \<open>
  C9 (boolean as float). Start from construction with \<open>n\<close> environments and make
  any sequence of resample and update calls, with any arguments: the tensor returned by
  \<open>command()\<close> has \<open>n\<close> rows, and column 0 of every row is exactly 0 or exactly 1.
  This covers the state left behind by a call that raises.
\<close>

theorem active_flag_is_boolean:
  "length (command (state_of (exec calls (init n d)))) = n
   \<and> flags_boolean (state_of (exec calls (init n d)))"
proof -
  have "wf_state n (init n d)" by (simp add: wf_state_def init_def)
  moreover have "flags_boolean (init n d)"
    by (simp add: flags_boolean_def command_def init_def list_all_iff)
  ultimately show ?thesis
    using exec_keeps_flags [of n "init n d" calls] by (simp add: wf_state_def command_def)
qed

theorem active_flag_is_boolean_witness:
  "command (state_of (exec [Resample [0] env_late, Update env_late] (init 1 1))) = [(1, 5033165 / 16777216)]
   \<and> flags_boolean (state_of (exec [Resample [0] env_late, Update env_late] (init 1 1)))"
  using active_flag_is_boolean [of "[Resample [0] env_late, Update env_late]" 1 1]
  by (simp add: model_defs example_defs f32_eval)

lemma update_runs_agree:
  assumes "list_all2 (\<lambda>e1 e2. length (reset_buf e1) = n1 \<and> length (reset_buf e2) = n2
                        \<and> step_dt e1 = step_dt e2
                        \<and> reset_buf e1 ! i1 = reset_buf e2 ! i2) es1 es2"
    and "i1 < n1" and "i2 < n2"
  shows "wf_state n1 s1 \<Longrightarrow> wf_state n2 s2 \<Longrightarrow>
         event_during_time s1 = event_during_time s2 \<Longrightarrow>
         event_command s1 ! i1 = event_command s2 ! i2 \<Longrightarrow>
         time_elapsed s1 ! i1 = time_elapsed s2 ! i2 \<Longrightarrow>
         \<exists>t1 t2. exec (map Update es1) s1 = Inr t1 \<and> exec (map Update es2) s2 = Inr t2
           \<and> event_command t1 ! i1 = event_command t2 ! i2
           \<and> time_elapsed t1 ! i1 = time_elapsed t2 ! i2"
  using assms(1)
proof (induction es1 es2 arbitrary: s1 s2 rule: list_all2_induct)
  case Nil
  then show ?case by simp
next
  case (Cons e1 es1 e2 es2)
  from update_command_row [OF Cons.prems(1) _ assms(2), of e1] Cons.hyps(1)
  obtain t1 where t1: "update_command e1 s1 = Inr t1" "wf_state n1 t1"
    "event_during_time t1 = event_during_time s1"
    "(event_command t1 ! i1, time_elapsed t1 ! i1)
       = row_update (step_dt e1) (event_during_time s1) (reset_buf e1 ! i1)
           (event_command s1 ! i1) (time_elapsed s1 ! i1)"
    by auto
  from update_command_row [OF Cons.prems(2) _ assms(3), of e2] Cons.hyps(1)
  obtain t2 where t2: "update_command e2 s2 = Inr t2" "wf_state n2 t2"
    "event_during_time t2 = event_during_time s2"
    "(event_command t2 ! i2, time_elapsed t2 ! i2)
       = row_update (step_dt e2) (event_during_time s2) (reset_buf e2 ! i2)
           (event_command s2 ! i2) (time_elapsed s2 ! i2)"
    by auto
  have same: "(event_command t1 ! i1, time_elapsed t1 ! i1)
                = (event_command t2 ! i2, time_elapsed t2 ! i2)"
    using t1(4) t2(4) Cons.hyps(1) Cons.prems(3,4,5) by simp
  have dur: "event_during_time t1 = event_during_time t2"
    using t1(3) t2(3) Cons.prems(3) by simp
  from Cons.IH [OF t1(2) t2(2) dur] same
  obtain u1 u2 where "exec (map Update es1) t1 = Inr u1" "exec (map Update es2) t2 = Inr u2"
    "event_command u1 ! i1 = event_command u2 ! i2" "time_elapsed u1 ! i1 = time_elapsed u2 ! i2"
    by auto
  then show ?case using t1(1) t2(1) by simp
qed

text \<open>
  C7 (determinism and noninterference). Take two generators, possibly of different
  batch sizes, with the same \<open>event_during_time\<close>, and an environment in each (at any
  positions \<open>i1\<close>, \<open>i2\<close>) with the same row and the same timer. Feed both any
  sequences of updates that agree in \<open>step_dt\<close> and in the \<open>reset_buf\<close> entry of that
  environment. Then after every number \<open>k\<close> of calls both runs have returned and the
  two environments have the same row and timer, whatever the other rows, the other
  entries of \<open>reset_buf\<close> and the positions are. With the same generator, the same
  inputs and \<open>i1 = i2\<close> this is determinism of the trajectory.
\<close>

theorem update_noninterference:
  assumes "wf_state n1 s1" and "wf_state n2 s2" and "i1 < n1" and "i2 < n2"
    and "event_during_time s1 = event_during_time s2"
    and "command s1 ! i1 = command s2 ! i2"
    and "time_elapsed s1 ! i1 = time_elapsed s2 ! i2"
    and "list_all2 (\<lambda>e1 e2. length (reset_buf e1) = n1 \<and> length (reset_buf e2) = n2
                        \<and> step_dt e1 = step_dt e2
                        \<and> reset_buf e1 ! i1 = reset_buf e2 ! i2) es1 es2"
  shows "\<exists>t1 t2. exec (map Update (take k es1)) s1 = Inr t1
           \<and> exec (map Update (take k es2)) s2 = Inr t2
           \<and> command t1 ! i1 = command t2 ! i2
           \<and> time_elapsed t1 ! i1 = time_elapsed t2 ! i2"
proof -
  have "list_all2 (\<lambda>e1 e2. length (reset_buf e1) = n1 \<and> length (reset_buf e2) = n2
                        \<and> step_dt e1 = step_dt e2
                        \<and> reset_buf e1 ! i1 = reset_buf e2 ! i2) (take k es1) (take k es2)"
    using assms(8) by (rule list_all2_takeI)
  from update_runs_agree [OF this assms(3,4) assms(1,2,5)] assms(6,7)
  show ?thesis by (simp add: command_def)
qed

theorem update_noninterference_witness:
  "wf_state 2 state_two \<and> wf_state 3 state_three \<and> (1::nat) < 2 \<and> (2::nat) < 3
   \<and> event_during_time state_two = event_during_time state_three
   \<and> command state_two ! 1 = command state_three ! 2
   \<and> time_elapsed state_two ! 1 = time_elapsed state_three ! 2
   \<and> list_all2 (\<lambda>e1 e2. length (reset_buf e1) = 2 \<and> length (reset_buf e2) = 3
                        \<and> step_dt e1 = step_dt e2
                        \<and> reset_buf e1 ! 1 = reset_buf e2 ! 2)
        [env_reset0, env_reset0] [env_other, env_other]
   \<and> (\<exists>t1 t2. exec (map Update (take 2 [env_reset0, env_reset0])) state_two = Inr t1
           \<and> exec (map Update (take 2 [env_other, env_other])) state_three = Inr t2
           \<and> command t1 ! 1 = command t2 ! 2
           \<and> time_elapsed t1 ! 1 = time_elapsed t2 ! 2)"
proof -
  have h: "wf_state 2 state_two" "wf_state 3 state_three" "(1::nat) < 2" "(2::nat) < 3"
    "event_during_time state_two = event_during_time state_three"
    "command state_two ! 1 = command state_three ! 2"
    "time_elapsed state_two ! 1 = time_elapsed state_three ! 2"
    "list_all2 (\<lambda>e1 e2. length (reset_buf e1) = 2 \<and> length (reset_buf e2) = 3
                        \<and> step_dt e1 = step_dt e2
                        \<and> reset_buf e1 ! 1 = reset_buf e2 ! 2)
        [env_reset0, env_reset0] [env_other, env_other]"
    by (simp_all add: model_defs example_defs)
  from update_noninterference [OF h, of 2] h show ?thesis by blast
qed

lemma map_fst_set_col0:
  "length c0 = length rows \<Longrightarrow> map fst (set_col0 rows c0) = c0"
  by (simp add: set_col0_zip)

lemma map_snd_set_col0:
  "length c0 = length rows \<Longrightarrow> map snd (set_col0 rows c0) = map snd rows"
  by (simp add: set_col0_zip)

lemma resample_command_rows:
  assumes "wf_state n s" "length (episode_length_buf e) = n"
    and "\<forall>i\<in>set env_ids. - int n \<le> i \<and> i < int n" and "k < n"
  shows "\<exists>s'. resample_command env_ids e s = Inr s' \<and> wf_state n s'
           \<and> event_during_time s' = event_during_time s
           \<and> event_command s' ! k
               = (if k \<in> row_of n ` set env_ids
                  then (if 2 \<le> current_time e ! k then 1 else 0, snd (event_command s ! k))
                  else event_command s ! k)
           \<and> time_elapsed s' ! k
               = (if k \<in> row_of n ` set env_ids then 0 else time_elapsed s ! k)"
proof -
  define js where "js = map (\<lambda>i. nat (if i < 0 then i + int n else i)) env_ids"
  have set_js: "set js = row_of n ` set env_ids"
    by (auto simp: js_def row_of_def)
  have bound: "\<forall>j\<in>set js. j < n"
    using assms(3) by (auto simp: js_def)
  have len: "length (event_command s) = n" "length (time_elapsed s) = n"
    using assms(1) by (simp_all add: wf_state_def)
  let ?c0 = "index_put (map fst (event_command s)) js
               (map (\<lambda>j. if 2 \<le> current_time e ! j then 1 else 0) js)"
  let ?s' = "s\<lparr>event_command := set_col0 (event_command s) ?c0,
               time_elapsed := index_put (time_elapsed s) js (map (\<lambda>j. 0) js)\<rparr>"
  have r: "resample_command env_ids e s = Inr ?s'"
    using assms(1,2,3) js_def by (rule resample_command_returns)
  have c0: "?c0 ! k = (if k \<in> set js then (if 2 \<le> current_time e ! k then 1 else 0)
                       else fst (event_command s ! k))"
    using bound assms(4) len by (simp add: nth_index_put_map)
  have row: "event_command ?s' ! k = (?c0 ! k, snd (event_command s ! k))"
    using assms(4) len by (simp add: set_col0_zip)
  have te: "time_elapsed ?s' ! k = (if k \<in> set js then 0 else time_elapsed s ! k)"
    using bound assms(4) len by (simp add: nth_index_put_map)
  have wf: "wf_state n ?s'" using len by (simp add: wf_state_def set_col0_zip)
  show ?thesis
    using r wf row c0 te set_js by (auto simp: prod_eq_iff)
qed

text \<open>
  C3 (resample postcondition), as the code has it. For tensors of one size \<open>n\<close> and
  ids all valid, the call returns, and for every id given: the flag of the environment
  it addresses is 1.0 if the float32 product \<open>episode_length_buf * physics_dt * 4\<close> is
  at least 2.0 and 0.0 otherwise, its internal timer is 0, and column 1 of its row, the
  elapsed time that \<open>command()\<close> shows, is what it was before the call.
\<close>

theorem resample_sets_flag_and_timer:
  assumes "wf_state n s" and "wf_env n e"
    and "\<forall>i\<in>set env_ids. - int n \<le> i \<and> i < int n" and "i \<in> set env_ids"
  shows "\<exists>s'. resample_command env_ids e s = Inr s' \<and> row_of n i < n
           \<and> fst (command s' ! row_of n i)
               = (if 2 \<le> f32 (f32 (f32 (real_of_int (episode_length_buf e ! row_of n i))
                                     * f32 (physics_dt e)) * 4)
                  then 1 else 0)
           \<and> time_elapsed s' ! row_of n i = 0
           \<and> snd (command s' ! row_of n i) = snd (command s ! row_of n i)"
proof -
  have k: "row_of n i < n" using assms(3,4) by (auto simp: row_of_def)
  have l: "length (episode_length_buf e) = n" using assms(2) by (simp add: wf_env_def)
  have ct: "current_time e ! row_of n i
              = f32 (f32 (f32 (real_of_int (episode_length_buf e ! row_of n i))
                          * f32 (physics_dt e)) * 4)"
    using k l by (simp add: current_time_def)
  have m: "row_of n i \<in> row_of n ` set env_ids" using assms(4) by blast
  from resample_command_rows [OF assms(1) l assms(3) k] m ct k
  show ?thesis by (auto simp: command_def)
qed

theorem resample_sets_flag_and_timer_witness:
  "wf_state 2 state_two \<and> wf_env 2 env_reset0
   \<and> - int 2 \<le> (-1 :: int) \<and> (-1 :: int) < int 2 \<and> (-1 :: int) \<in> set [-1]
   \<and> row_of 2 (-1) = 1
   \<and> f32 (f32 (f32 (real_of_int (episode_length_buf env_reset0 ! 1))
                  * f32 (physics_dt env_reset0)) * 4) = 3
   \<and> resample_command [-1] env_reset0 state_two
        = Inr \<lparr>time_elapsed = [1/2, 0], event_command = [(1, 1/2), (1, 1/4)],
               event_during_time = 1\<rparr>"
proof -
  have h: "wf_state 2 state_two" "wf_env 2 env_reset0"
    "\<forall>i\<in>set [-1 :: int]. - int 2 \<le> i \<and> i < int 2" "(-1 :: int) \<in> set [-1]"
    by (simp_all add: model_defs example_defs)
  from resample_sets_flag_and_timer [OF h] h show ?thesis
    by (simp add: model_defs example_defs row_of_def f32_eval)
qed

text \<open>
  C3 as stated fails: an event that is 0.3 s old when its environment is resampled past
  the threshold shows \<open>(1.0, 0.3)\<close>, not \<open>(1.0, 0.0)\<close>; only the internal timer is 0.
  The threshold, too, is met by the float32 product and not by the exact one: at 60 Hz
  and step 30 the exact product is below 2, the float32 product is 2.0 and the flag is
  set.
\<close>

theorem resample_keeps_exposed_elapsed_counterexample:
  "exec [Resample [0] env_late, Update env_late, Resample [0] env_late] (init 1 1)
     = Inr \<lparr>time_elapsed = [0], event_command = [(1, 5033165 / 16777216)],
            event_during_time = 1\<rparr>
   \<and> 2 \<le> current_time env_late ! 0
   \<and> command (state_of (exec [Resample [0] env_late, Update env_late, Resample [0] env_late]
                          (init 1 1))) ! 0 \<noteq> (1, 0)
   \<and> real_of_int (episode_length_buf env_sixtieth ! 0) * physics_dt env_sixtieth * 4 < 2
   \<and> resample_command [0] env_sixtieth (init 1 1)
       = Inr \<lparr>time_elapsed = [0], event_command = [(1, 0)], event_during_time = 1\<rparr>"
  by (simp add: model_defs example_defs f32_eval)

text \<open>
  C6 (idempotence of resample). On tensors of one size, a second resample with the same
  ids and the same environment gives the outcome of the first: the same state if the
  first returned, the same error and unchanged state if it raised.
\<close>

theorem resample_idempotent:
  assumes "wf_state n s" and "wf_env n e"
  shows "resample_command env_ids e (state_of (resample_command env_ids e s))
           = resample_command env_ids e s"
proof (cases "\<forall>i\<in>set env_ids. - int n \<le> i \<and> i < int n")
  case False
  have l: "length (episode_length_buf e) = n" using assms(2) by (simp add: wf_env_def)
  from False have "resample_command env_ids e s = Inl (IndexError, s)"
    by (intro resample_command_raises [OF assms(1) l]) blast
  then show ?thesis by (simp add: state_of_def)
next
  case True
  have l: "length (episode_length_buf e) = n" using assms(2) by (simp add: wf_env_def)
  define js where "js = map (\<lambda>i. nat (if i < 0 then i + int n else i)) env_ids"
  have bound: "\<forall>j\<in>set js. j < n" using True by (auto simp: js_def)
  have len: "length (event_command s) = n" "length (time_elapsed s) = n"
    using assms(1) by (simp_all add: wf_state_def)
  let ?h = "\<lambda>j. if 2 \<le> current_time e ! j then 1 else 0 :: real"
  let ?c0 = "index_put (map fst (event_command s)) js (map ?h js)"
  let ?te = "index_put (time_elapsed s) js (map (\<lambda>j. 0) js)"
  let ?s' = "s\<lparr>event_command := set_col0 (event_command s) ?c0, time_elapsed := ?te\<rparr>"
  have r1: "resample_command env_ids e s = Inr ?s'"
    using assms(1) l True js_def by (rule resample_command_returns)
  have wf: "wf_state n ?s'" using len by (simp add: wf_state_def set_col0_zip)
  have r2: "resample_command env_ids e ?s' =
              Inr (?s'\<lparr>event_command :=
                          set_col0 (event_command ?s')
                            (index_put (map fst (event_command ?s')) js (map ?h js)),
                        time_elapsed := index_put (time_elapsed ?s') js (map (\<lambda>j. 0) js)\<rparr>)"
    using wf l True js_def by (rule resample_command_returns)
  have a: "map fst (event_command ?s') = ?c0" using len by (simp add: map_fst_set_col0)
  have b: "index_put ?c0 js (map ?h js) = ?c0"
    using bound len by (simp add: index_put_twice)
  have c: "set_col0 (event_command ?s') ?c0 = set_col0 (event_command s) ?c0"
    using len by (simp add: set_col0_zip)
  have d: "index_put ?te js (map (\<lambda>j. 0) js) = ?te"
    using bound len by (simp add: index_put_twice)
  have "resample_command env_ids e ?s' = Inr ?s'"
    unfolding r2 a b c using d by simp
  then show ?thesis using r1 by (simp add: state_of_def)
qed

theorem resample_idempotent_witness:
  "wf_state 2 state_two \<and> wf_env 2 env_reset0
   \<and> resample_command [1, 0] env_reset0 state_two
        = Inr \<lparr>time_elapsed = [0, 0], event_command = [(1, 1/2), (1, 1/4)],
               event_during_time = 1\<rparr>
   \<and> resample_command [1, 0] env_reset0
        \<lparr>time_elapsed = [0, 0], event_command = [(1, 1/2), (1, 1/4)], event_during_time = 1\<rparr>
        = Inr \<lparr>time_elapsed = [0, 0], event_command = [(1, 1/2), (1, 1/4)],
               event_during_time = 1\<rparr>"
proof -
  have h: "wf_state 2 state_two" "wf_env 2 env_reset0"
    by (simp_all add: model_defs example_defs)
  have r: "resample_command [1, 0] env_reset0 state_two
        = Inr \<lparr>time_elapsed = [0, 0], event_command = [(1, 1/2), (1, 1/4)],
               event_during_time = 1\<rparr>"
    by (simp add: model_defs example_defs f32_eval)
  from resample_idempotent [OF h, of "[1, 0]"] r h show ?thesis
    by (simp add: state_of_def)
qed

text \<open>
  C8 (ids out of range), as the code has it. An id list that contains an id below \<open>-n\<close>
  or at least \<open>n\<close> makes resample raise IndexError with the state untouched. An id in
  \<open>[-n, -1]\<close> is not rejected: it counts from the end, and the call does exactly what
  it does with \<open>id + n\<close> in its place.
\<close>

theorem out_of_range_id_raises:
  assumes "wf_state n s" and "wf_env n e"
  shows "(i \<in> set env_ids \<and> (i < - int n \<or> int n \<le> i)
            \<longrightarrow> resample_command env_ids e s = Inl (IndexError, s))
       \<and> (- int n \<le> i \<and> i < 0
            \<longrightarrow> resample_command (pre @ i # post) e s
                  = resample_command (pre @ (i + int n) # post) e s)"
proof (intro conjI impI)
  have l: "length (episode_length_buf e) = n" using assms(2) by (simp add: wf_env_def)
  {
    assume "i \<in> set env_ids \<and> (i < - int n \<or> int n \<le> i)"
    then have "i \<in> set env_ids" "\<not> (- int n \<le> i \<and> i < int n)" by auto
    then have "\<exists>i\<in>set env_ids. \<not> (- int n \<le> i \<and> i < int n)" by (rule bexI [rotated])
    then show "resample_command env_ids e s = Inl (IndexError, s)"
      by (rule resample_command_raises [OF assms(1) l])
  }
  {
    assume neg: "- int n \<le> i \<and> i < 0"
    let ?a = "pre @ i # post" and ?b = "pre @ (i + int n) # post"
    have valid: "(\<forall>x\<in>set ?a. - int n \<le> x \<and> x < int n)
                   \<longleftrightarrow> (\<forall>x\<in>set ?b. - int n \<le> x \<and> x < int n)"
      using neg by auto
    have js: "map (\<lambda>x. nat (if x < 0 then x + int n else x)) ?a
                = map (\<lambda>x. nat (if x < 0 then x + int n else x)) ?b"
      using neg by simp
    show "resample_command ?a e s = resample_command ?b e s"
    proof (cases "\<forall>x\<in>set ?a. - int n \<le> x \<and> x < int n")
      case True
      with valid have vb: "\<forall>x\<in>set ?b. - int n \<le> x \<and> x < int n" by blast
      show ?thesis
        using resample_command_returns [OF assms(1) l True refl]
          resample_command_returns [OF assms(1) l vb refl] js by simp
    next
      case False
      with valid have fb: "\<exists>x\<in>set ?b. \<not> (- int n \<le> x \<and> x < int n)" by blast
      from False have fa: "\<exists>x\<in>set ?a. \<not> (- int n \<le> x \<and> x < int n)" by blast
      show ?thesis
        using resample_command_raises [OF assms(1) l fa]
          resample_command_raises [OF assms(1) l fb] by simp
    qed
  }
qed

theorem out_of_range_id_raises_witness:
  "wf_state 2 state_two \<and> wf_env 2 env_reset0
   \<and> (2 :: int) \<in> set [0, 2] \<and> ((2 :: int) < - int 2 \<or> int 2 \<le> 2)
   \<and> resample_command [0, 2] env_reset0 state_two = Inl (IndexError, state_two)
   \<and> (-3 :: int) \<in> set [-3] \<and> ((-3 :: int) < - int 2 \<or> int 2 \<le> -3)
   \<and> resample_command [-3] env_reset0 state_two = Inl (IndexError, state_two)
   \<and> - int 2 \<le> (-1 :: int) \<and> (-1 :: int) < 0
   \<and> resample_command ([] @ (-1) # []) env_reset0 state_two
       = resample_command ([] @ (-1 + int 2) # []) env_reset0 state_two"
proof -
  have h: "wf_state 2 state_two" "wf_env 2 env_reset0"
    by (simp_all add: model_defs example_defs)
  from out_of_range_id_raises [OF h, of 2 "[0, 2]"]
    out_of_range_id_raises [OF h, of "-3" "[-3]"]
    out_of_range_id_raises [OF h, of "-1" _ "[]" "[]"] h
  show ?thesis by simp
qed

text \<open>
  C8 as stated fails for negative ids: with one environment, id -1 is outside
  \<open>[0, 1)\<close>, yet the call returns and has written row 0.
\<close>

theorem negative_id_wraps_counterexample:
  "resample_command [-1] env_late (init 1 1)
     = Inr \<lparr>time_elapsed = [0], event_command = [(1, 0)], event_during_time = 1\<rparr>
   \<and> command (init 1 1) = [(0, 0)]
   \<and> \<not> (0 \<le> (-1 :: int) \<and> (-1 :: int) < int 1)"
  by (simp add: model_defs example_defs f32_eval)

text \<open>
  C1 (inactive implies zero elapsed), as far as the code holds it. At construction every
  row is \<open>(0.0, 0.0)\<close>. After an update call, an environment that \<open>reset_buf\<close> flags or
  whose flag was not 1.0 before the call has row \<open>(0.0, 0.0)\<close> and timer 0. A resample
  leaves column 1 of every row as it was. (The step in which an update deactivates an
  environment by duration is the subject of C2.)
\<close>

theorem inactive_rows_after_update:
  assumes "wf_state n s" and "wf_env n e" and "i < n"
  shows "command (init n d) = replicate n (0, 0)
       \<and> (\<exists>s'. update_command e s = Inr s'
              \<and> (reset_buf e ! i \<or> fst (command s ! i) \<noteq> 1
                   \<longrightarrow> command s' ! i = (0, 0) \<and> time_elapsed s' ! i = 0))
       \<and> map snd (command (state_of (resample_command env_ids e s))) = map snd (command s)"
proof -
  have r: "length (reset_buf e) = n" using assms(2) by (simp add: wf_env_def)
  have a: "command (init n d) = replicate n (0, 0)" by (simp add: command_def init_def)
  from update_command_row [OF assms(1) r assms(3)]
  have b: "\<exists>s'. update_command e s = Inr s'
              \<and> (reset_buf e ! i \<or> fst (command s ! i) \<noteq> 1
                   \<longrightarrow> command s' ! i = (0, 0) \<and> time_elapsed s' ! i = 0)"
    by (auto simp: row_update_def command_def Let_def split: if_splits)
  have l: "length (index_put (map fst (event_command s)) js vs) = length (event_command s)"
    for js vs by simp
  have c: "map snd (command (state_of (resample_command env_ids e s))) = map snd (command s)"
    by (simp add: resample_command_def state_of_def command_def Let_def
        map_snd_set_col0 [OF l] split: sum.splits)
  from a b c show ?thesis by blast
qed

theorem inactive_rows_after_update_witness:
  "wf_state 2 state_two \<and> wf_env 2 env_reset0 \<and> (0::nat) < 2 \<and> reset_buf env_reset0 ! 0
   \<and> command (init 2 1) = [(0, 0), (0, 0)]
   \<and> (\<exists>s'. update_command env_reset0 state_two = Inr s'
          \<and> command s' ! 0 = (0, 0) \<and> time_elapsed s' ! 0 = 0)
   \<and> map snd (command (state_of (resample_command [0] env_reset0 state_two))) = [1/2, 1/4]"
proof -
  have h: "wf_state 2 state_two" "wf_env 2 env_reset0" "(0::nat) < 2"
    by (simp_all add: model_defs example_defs)
  have r: "reset_buf env_reset0 ! 0" by (simp add: example_defs)
  have c: "map snd (command state_two) = [1/2, 1/4]" by (simp add: model_defs example_defs)
  have i: "replicate 2 (0::real, 0::real) = [(0, 0), (0, 0)]" by (simp add: numeral_2_eq_2)
  from inactive_rows_after_update [OF h, of 1 "[0]"] h r c i show ?thesis by auto
qed

text \<open>
  C1 as stated fails after a resample: an environment whose event is 0.3 s old and whose
  episode restarts is resampled to flag 0.0 while \<open>command()\<close> still shows 0.3.
\<close>

theorem inactive_with_stale_elapsed_counterexample:
  "exec [Resample [0] env_late, Update env_late, Resample [0] env_early] (init 1 1)
     = Inr \<lparr>time_elapsed = [0], event_command = [(0, 5033165 / 16777216)], event_during_time = 1\<rparr>
   \<and> \<not> inactive_exposes_zero
          (state_of (exec [Resample [0] env_late, Update env_late, Resample [0] env_early]
                       (init 1 1)))"
  by (simp add: model_defs example_defs inactive_exposes_zero_def f32_eval)

end
